theory Spec2Isabelle
  imports Main "HOL-Library.Multiset"
begin

section \<open>Python values and strings\<close>

text \<open>
  The arguments of the methods of \<open>DatabaseManager\<close> are Python values. The signatures
  mention \<open>str\<close>, \<open>int\<close> and \<open>None\<close>; the checks of the source (\<open>not name\<close>,
  \<open>isinstance(name, str)\<close>, \<open>user_id <= 0\<close>) are written for exactly these.
  A \<open>string\<close> is the sequence of code points of a Python \<open>str\<close>, each below 256.
\<close>

datatype pyval = PNone | PInt int | PStr string

fun truthy :: "pyval \<Rightarrow> bool" where
  "truthy PNone = False"
| "truthy (PInt i) = (i \<noteq> 0)"
| "truthy (PStr s) = (s \<noteq> [])"

fun isinstance_str :: "pyval \<Rightarrow> bool" where
  "isinstance_str (PStr s) = True"
| "isinstance_str v = False"

fun isinstance_int :: "pyval \<Rightarrow> bool" where
  "isinstance_int (PInt i) = True"
| "isinstance_int v = False"

text \<open>The payload of a value once \<open>isinstance\<close> has accepted it.\<close>

fun the_str :: "pyval \<Rightarrow> string" where
  "the_str (PStr s) = s"
| "the_str v = []"

fun the_int :: "pyval \<Rightarrow> int" where
  "the_int (PInt i) = i"
| "the_int v = 0"

text \<open>
  \<open>str.strip()\<close> removes the leading and the trailing whitespace. Below 256 the code
  points that \<open>str.isspace\<close> accepts are 9 to 13, 28 to 32, 133 and 160.
\<close>

definition isspace :: "char \<Rightarrow> bool" where
  "isspace c = (let n = (of_char c :: nat) in
     (9 \<le> n \<and> n \<le> 13) \<or> (28 \<le> n \<and> n \<le> 32) \<or> n = 133 \<or> n = 160)"

definition strip :: "string \<Rightarrow> string" where
  "strip s = rev (dropWhile isspace (rev (dropWhile isspace s)))"

text \<open>\<open>str(n)\<close> for an integer, as the f-strings of the error messages use it.\<close>

fun str_nat :: "nat \<Rightarrow> string" where
  "str_nat n = (if n < 10 then [char_of (48 + n)]
                else str_nat (n div 10) @ [char_of (48 + n mod 10)])"

definition str_int :: "int \<Rightarrow> string" where
  "str_int i = (if i < 0 then CHR ''-'' # str_nat (nat (- i)) else str_nat (nat i))"

section \<open>The table and the storage engine\<close>

text \<open>
  One row of the table \<open>users\<close> of \<open>SCHEMA_SQL\<close>: \<open>id INTEGER PRIMARY KEY AUTOINCREMENT\<close>,
  \<open>name TEXT NOT NULL\<close>, \<open>email TEXT NOT NULL UNIQUE\<close>,
  \<open>created_at TIMESTAMP DEFAULT CURRENT_TIMESTAMP\<close> (the only nullable column).
\<close>

type_synonym timestamp = string

record user =
  row_id :: int
  name :: string
  email :: string
  created_at :: "timestamp option"

text \<open>The statements the source sends, with their bound parameters.\<close>

datatype stmt =
    Create_Table
  | Insert_User string string
  | Select_By_Id int
  | Select_Page int int
  | Select_Count
  | Update_User "string option" "string option" int
  | Delete_User int

datatype db_event = Connect | Execute stmt | Commit | Close

text \<open>
  The state the operations run in: the rows of the table in insertion order; the counter
  that \<open>AUTOINCREMENT\<close> keeps (the largest id ever given out); the number of
  connections that were opened and not closed; whether one of those connections still
  holds the write lock of the database, because a write statement of its failed on a
  constraint and its transaction was neither committed nor rolled back; and every access
  to the storage layer so far.
  Every write statement of the source that succeeds is followed at once by
  \<open>conn.commit()\<close>, so such a write takes effect when it executes, its lock ends with the
  operation, and the commit is an event of the trace.
\<close>

record state =
  table :: "user list"
  sqlite_sequence :: int
  open_conns :: nat
  write_lock :: bool
  trace :: "db_event list"

datatype exn =
    ValueError string
  | TypeError string
  | OverflowError string
  | IntegrityError string
  | OperationalError string

text \<open>
  A Python integer is bound to a parameter of a statement as a 64-bit signed integer; one
  outside that range makes \<open>cursor.execute\<close> raise \<open>OverflowError\<close>, which is neither a
  \<open>ValueError\<close> nor an \<open>sqlite3.Error\<close>, before the statement runs.
\<close>

definition fits_int64 :: "int \<Rightarrow> bool" where
  "fits_int64 i = (- (2 ^ 63) \<le> i \<and> i < 2 ^ 63)"

definition overflow_error :: exn where
  "overflow_error = OverflowError ''Python int too large to convert to SQLite INTEGER''"

text \<open>
  A write statement on a database whose write lock another connection holds fails with
  \<open>sqlite3.OperationalError\<close>; so does an \<open>INSERT\<close> when the largest id was given out.
\<close>

definition locked_error :: exn where
  "locked_error = OperationalError ''database is locked''"

definition full_error :: exn where
  "full_error = OperationalError ''database or disk is full''"

definition unique_error :: exn where
  "unique_error = IntegrityError ''UNIQUE constraint failed: users.email''"

definition log_event :: "db_event \<Rightarrow> state \<Rightarrow> state" where
  "log_event ev s = s\<lparr>trace := trace s @ [ev]\<rparr>"

definition get_connection :: "state \<Rightarrow> state" where
  "get_connection s = log_event Connect (s\<lparr>open_conns := Suc (open_conns s)\<rparr>)"

definition close :: "state \<Rightarrow> state" where
  "close s = log_event Close (s\<lparr>open_conns := open_conns s - 1\<rparr>)"

definition commit :: "state \<Rightarrow> state" where
  "commit s = log_event Commit s"

text \<open>
  \<open>SELECT * FROM users WHERE id = ?\<close> followed by \<open>fetchone()\<close>. A query reads also
  while another connection holds the write lock.
\<close>

definition select_by_id :: "state \<Rightarrow> int \<Rightarrow> (exn + user option) \<times> state" where
  "select_by_id s i =
     (if \<not> fits_int64 i then (Inl overflow_error, s)
      else (Inr (find (\<lambda>r. row_id r = i) (table s)), log_event (Execute (Select_By_Id i)) s))"

text \<open>
  \<open>INSERT INTO users (name, email) VALUES (?, ?)\<close>: the new id is one more than the
  largest id that ever was in the table, and there is none after \<open>2^63 - 1\<close>;
  \<open>created_at\<close> takes its default, the reading \<open>now\<close> of the engine's clock; a second
  row with the same email violates \<open>UNIQUE\<close>, and the connection keeps the write lock it
  took for the statement. The result is \<open>cursor.lastrowid\<close>.
\<close>

definition largest_rowid :: "state \<Rightarrow> int" where
  "largest_rowid s = fold max (map row_id (table s)) (sqlite_sequence s)"

definition insert_user :: "state \<Rightarrow> timestamp \<Rightarrow> string \<Rightarrow> string \<Rightarrow> (exn + int) \<times> state" where
  "insert_user s now nm em =
     (let s1 = log_event (Execute (Insert_User nm em)) s in
      if write_lock s then (Inl locked_error, s1)
      else if 2 ^ 63 - 1 \<le> largest_rowid s then (Inl full_error, s1)
      else if em \<in> set (map email (table s)) then (Inl unique_error, s1\<lparr>write_lock := True\<rparr>)
      else let i = largest_rowid s + 1 in
        (Inr i, s1\<lparr>table := table s @ [\<lparr>row_id = i, name = nm, email = em, created_at = Some now\<rparr>],
                   sqlite_sequence := i\<rparr>))"

text \<open>
  \<open>UPDATE users SET ... WHERE id = ?\<close> with the assignments the source has collected:
  the row with that id takes the new values; an email that another row holds violates
  \<open>UNIQUE\<close>, and the connection keeps the write lock.
\<close>

definition set_fields :: "string option \<Rightarrow> string option \<Rightarrow> user \<Rightarrow> user" where
  "set_fields nm em r =
     (let r1 = (case nm of None \<Rightarrow> r | Some n \<Rightarrow> r\<lparr>name := n\<rparr>)
      in (case em of None \<Rightarrow> r1 | Some e \<Rightarrow> r1\<lparr>email := e\<rparr>))"

definition update_row :: "state \<Rightarrow> string option \<Rightarrow> string option \<Rightarrow> int \<Rightarrow> (exn + unit) \<times> state" where
  "update_row s nm em i =
     (if \<not> fits_int64 i then (Inl overflow_error, s)
      else let s1 = log_event (Execute (Update_User nm em i)) s in
        if write_lock s then (Inl locked_error, s1)
        else if (\<exists>r \<in> set (table s). row_id r = i) \<and>
                (case em of None \<Rightarrow> False
                 | Some e \<Rightarrow> \<exists>r \<in> set (table s). row_id r \<noteq> i \<and> email r = e)
        then (Inl unique_error, s1\<lparr>write_lock := True\<rparr>)
        else (Inr (), s1\<lparr>table := map (\<lambda>r. if row_id r = i then set_fields nm em r else r) (table s)\<rparr>))"

text \<open>\<open>DELETE FROM users WHERE id = ?\<close>; the counter of \<open>AUTOINCREMENT\<close> stays.\<close>

definition delete_row :: "state \<Rightarrow> int \<Rightarrow> (exn + unit) \<times> state" where
  "delete_row s i =
     (if \<not> fits_int64 i then (Inl overflow_error, s)
      else let s1 = log_event (Execute (Delete_User i)) s in
        if write_lock s then (Inl locked_error, s1)
        else (Inr (), s1\<lparr>table := filter (\<lambda>r. row_id r \<noteq> i) (table s)\<rparr>))"

text \<open>
  \<open>SELECT * FROM users ORDER BY id DESC LIMIT ? OFFSET ?\<close> followed by \<open>fetchall()\<close>;
  a negative \<open>LIMIT\<close> is no limit and a negative \<open>OFFSET\<close> is 0 in SQLite.
\<close>

definition select_page :: "state \<Rightarrow> int \<Rightarrow> int \<Rightarrow> (exn + user list) \<times> state" where
  "select_page s lim off =
     (if \<not> fits_int64 lim \<or> \<not> fits_int64 off then (Inl overflow_error, s)
      else let ordered = rev (sort_key row_id (table s));
               skipped = drop (nat off) ordered
        in (Inr (if lim < 0 then skipped else take (nat lim) skipped),
            log_event (Execute (Select_Page lim off)) s))"

text \<open>\<open>SELECT COUNT(*) as count FROM users\<close>.\<close>

definition select_count :: "state \<Rightarrow> int \<times> state" where
  "select_count s = (int (length (table s)), log_event (Execute Select_Count) s)"

section \<open>DatabaseManager\<close>

text \<open>The dictionaries the methods return; a key a method does not set is \<open>None\<close>.\<close>

datatype payload = One user | Many "user list"

record page_info =
  pg_total :: int
  pg_limit :: int
  pg_offset :: int

record reply =
  success :: bool
  data :: payload
  message :: "string option"
  pagination :: "page_info option"

type_synonym 'a outcome = "(exn + 'a) \<times> state"

text \<open>
  \<open>try: ... except sqlite3.IntegrityError: raise ValueError("Email already exists")
  except sqlite3.Error: raise\<close> of \<open>create_user\<close> and \<open>update_user\<close>, and the
  \<open>except sqlite3.Error: raise\<close> of the other methods. Every other exception raised
  inside the \<open>try\<close> block passes both clauses.
\<close>

fun on_integrity_error :: "exn \<Rightarrow> exn" where
  "on_integrity_error (IntegrityError m) = ValueError ''Email already exists''"
| "on_integrity_error e = e"

definition handle :: "(exn \<Rightarrow> exn) \<Rightarrow> 'a outcome \<Rightarrow> 'a outcome" where
  "handle h out = (case out of (Inl e, s) \<Rightarrow> (Inl (h e), s) | (Inr v, s) \<Rightarrow> (Inr v, s))"

definition init_database :: "state \<Rightarrow> state" where
  "init_database s = close (commit (log_event (Execute Create_Table) (get_connection s)))"

text \<open>A new database file, and the manager \<open>db = DatabaseManager()\<close> on it.\<close>

definition new_file :: state where
  "new_file = \<lparr>table = [], sqlite_sequence = 0, open_conns = 0, write_lock = False, trace = []\<rparr>"

definition db :: state where
  "db = init_database new_file"

definition none_row_error :: exn where
  "none_row_error = TypeError ''NoneType object is not iterable''"

definition create_try :: "state \<Rightarrow> timestamp \<Rightarrow> pyval \<Rightarrow> pyval \<Rightarrow> reply outcome" where
  "create_try s now nm em =
     (case insert_user (get_connection s) now (strip (the_str nm)) (strip (the_str em)) of
        (Inl e, s1) \<Rightarrow> (Inl e, s1)
      | (Inr user_id, s1) \<Rightarrow>
          (case select_by_id (commit s1) user_id of
             (Inl e, s2) \<Rightarrow> (Inl e, s2)
           | (Inr None, s2) \<Rightarrow> (Inl none_row_error, s2)
           | (Inr (Some u), s2) \<Rightarrow>
               (Inr \<lparr>success = True, data = One u,
                     message = Some ''User created successfully'', pagination = None\<rparr>,
                close s2)))"

definition create_user :: "state \<Rightarrow> timestamp \<Rightarrow> pyval \<Rightarrow> pyval \<Rightarrow> reply outcome" where
  "create_user s now nm em =
     (if \<not> truthy nm \<or> \<not> isinstance_str nm \<or> length (strip (the_str nm)) = 0
      then (Inl (ValueError ''Name must be a non-empty string''), s)
      else if \<not> truthy em \<or> \<not> isinstance_str em \<or> CHR ''@'' \<notin> set (the_str em)
      then (Inl (ValueError ''Email must be a valid email address''), s)
      else handle on_integrity_error (create_try s now nm em))"

definition not_found :: "int \<Rightarrow> exn" where
  "not_found i = ValueError (''User with ID '' @ str_int i @ '' not found'')"

definition bad_user_id :: "pyval \<Rightarrow> bool" where
  "bad_user_id v = (\<not> isinstance_int v \<or> the_int v \<le> 0)"

definition read_user :: "state \<Rightarrow> pyval \<Rightarrow> reply outcome" where
  "read_user s user_id =
     (if bad_user_id user_id
      then (Inl (ValueError ''User ID must be a positive integer''), s)
      else handle (\<lambda>e. e)
        (case select_by_id (get_connection s) (the_int user_id) of
           (Inl e, s1) \<Rightarrow> (Inl e, s1)
         | (Inr None, s1) \<Rightarrow> (Inl (not_found (the_int user_id)), close s1)
         | (Inr (Some r), s1) \<Rightarrow>
             (Inr \<lparr>success = True, data = One r, message = None, pagination = None\<rparr>,
              close s1)))"

definition read_all_users :: "state \<Rightarrow> pyval \<Rightarrow> pyval \<Rightarrow> reply outcome" where
  "read_all_users s limit offset =
     (let lim = (if \<not> isinstance_int limit \<or> the_int limit \<le> 0 \<or> the_int limit > 1000
                 then 100 else the_int limit);
          off = (if \<not> isinstance_int offset \<or> the_int offset < 0 then 0 else the_int offset)
      in handle (\<lambda>e. e)
        (case select_page (get_connection s) lim off of
           (Inl e, s1) \<Rightarrow> (Inl e, s1)
         | (Inr users, s1) \<Rightarrow>
             (case select_count s1 of
                (n_rows, s2) \<Rightarrow>
                  (Inr \<lparr>success = True, data = Many users, message = None,
                        pagination = Some \<lparr>pg_total = n_rows, pg_limit = lim, pg_offset = off\<rparr>\<rparr>,
                   close s2))))"

text \<open>
  The assignment that \<open>update_user\<close> collects for a column: the trimmed argument when
  the argument is truthy (\<open>if name:\<close>, \<open>if email:\<close>), none otherwise.
\<close>

definition assignment :: "pyval \<Rightarrow> string option" where
  "assignment v = (if truthy v then Some (strip (the_str v)) else None)"

definition update_try :: "state \<Rightarrow> int \<Rightarrow> pyval \<Rightarrow> pyval \<Rightarrow> reply outcome" where
  "update_try s user_id nm em =
     (case select_by_id (get_connection s) user_id of
        (Inl e, s1) \<Rightarrow> (Inl e, s1)
      | (Inr None, s1) \<Rightarrow> (Inl (not_found user_id), s1)
      | (Inr (Some old), s1) \<Rightarrow>
          if truthy nm \<and> (\<not> isinstance_str nm \<or> length (strip (the_str nm)) = 0)
          then (Inl (ValueError ''Name must be a non-empty string''), s1)
          else if truthy em \<and> (\<not> isinstance_str em \<or> CHR ''@'' \<notin> set (the_str em))
          then (Inl (ValueError ''Email must be a valid email address''), s1)
          else
            (case update_row s1 (assignment nm) (assignment em) user_id of
               (Inl e, s2) \<Rightarrow> (Inl e, s2)
             | (Inr u, s2) \<Rightarrow>
                 (case select_by_id (commit s2) user_id of
                    (Inl e, s3) \<Rightarrow> (Inl e, s3)
                  | (Inr None, s3) \<Rightarrow> (Inl none_row_error, s3)
                  | (Inr (Some r), s3) \<Rightarrow>
                      (Inr \<lparr>success = True, data = One r,
                            message = Some ''User updated successfully'', pagination = None\<rparr>,
                       close s3))))"

definition update_user :: "state \<Rightarrow> pyval \<Rightarrow> pyval \<Rightarrow> pyval \<Rightarrow> reply outcome" where
  "update_user s user_id nm em =
     (if bad_user_id user_id
      then (Inl (ValueError ''User ID must be a positive integer''), s)
      else if \<not> truthy nm \<and> \<not> truthy em
      then (Inl (ValueError ''At least one field (name or email) must be provided''), s)
      else handle on_integrity_error (update_try s (the_int user_id) nm em))"

definition delete_user :: "state \<Rightarrow> pyval \<Rightarrow> reply outcome" where
  "delete_user s user_id =
     (if bad_user_id user_id
      then (Inl (ValueError ''User ID must be a positive integer''), s)
      else handle (\<lambda>e. e)
        (case select_by_id (get_connection s) (the_int user_id) of
           (Inl e, s1) \<Rightarrow> (Inl e, s1)
         | (Inr None, s1) \<Rightarrow> (Inl (not_found (the_int user_id)), s1)
         | (Inr (Some u), s1) \<Rightarrow>
             (case delete_row s1 (the_int user_id) of
                (Inl e, s2) \<Rightarrow> (Inl e, s2)
              | (Inr d, s2) \<Rightarrow>
                  (Inr \<lparr>success = True, data = One u,
                        message = Some (''User '' @ str_int (the_int user_id) @ '' deleted successfully''),
                        pagination = None\<rparr>,
                   close (commit s2)))))"

section \<open>Error kinds and consistent states\<close>

text \<open>
  The source raises \<open>ValueError\<close> for every domain error; the message tells the kind.
  A validation error carries one of the four messages of the input checks, a duplicate
  error the message of the translated integrity error, a not-found error the message
  built by \<open>not_found\<close>.
\<close>

definition validation_messages :: "string list" where
  "validation_messages =
     [''Name must be a non-empty string'',
      ''Email must be a valid email address'',
      ''User ID must be a positive integer'',
      ''At least one field (name or email) must be provided'']"

fun is_validation_error :: "exn \<Rightarrow> bool" where
  "is_validation_error (ValueError m) = (m \<in> set validation_messages)"
| "is_validation_error e = False"

definition duplicate_error :: exn where
  "duplicate_error = ValueError ''Email already exists''"

text \<open>
  What the schema and the checks of \<open>create_user\<close> and \<open>update_user\<close> keep true of the
  table: ids are distinct, positive and not above the counter of \<open>AUTOINCREMENT\<close>, which
  is a 64-bit integer; emails are distinct, trimmed and contain \<open>@\<close>; names are trimmed
  and not empty; \<open>created_at\<close> is set.
\<close>

definition row_ok :: "int \<Rightarrow> user \<Rightarrow> bool" where
  "row_ok hi r =
     (0 < row_id r \<and> row_id r \<le> hi \<and> CHR ''@'' \<in> set (email r) \<and>
      strip (email r) = email r \<and> name r \<noteq> [] \<and> strip (name r) = name r \<and>
      created_at r \<noteq> None)"

definition table_ok :: "state \<Rightarrow> bool" where
  "table_ok s =
     (distinct (map row_id (table s)) \<and> distinct (map email (table s)) \<and>
      0 \<le> sqlite_sequence s \<and> sqlite_sequence s < 2 ^ 63 \<and>
      list_all (row_ok (sqlite_sequence s)) (table s))"

text \<open>
  The states the manager can be in: it starts on a new file, and every call of a method
  leads from one state to the next.
\<close>

inductive reachable :: "state \<Rightarrow> bool" where
  start: "reachable db"
| create: "reachable s \<Longrightarrow> reachable (snd (create_user s now nm em))"
| read: "reachable s \<Longrightarrow> reachable (snd (read_user s uid))"
| list: "reachable s \<Longrightarrow> reachable (snd (read_all_users s limit offset))"
| update: "reachable s \<Longrightarrow> reachable (snd (update_user s uid nm em))"
| delete: "reachable s \<Longrightarrow> reachable (snd (delete_user s uid))"

text \<open>The rows in the order of \<open>ORDER BY id DESC\<close>.\<close>

definition id_descending :: "user list \<Rightarrow> bool" where
  "id_descending us = sorted_wrt (\<lambda>a b. row_id a > row_id b) us"

text \<open>
  States for examples: the manager's database after one and after two creates; the state
  after a second create with Bob's email has failed; a database whose only record has
  the largest id.
\<close>

definition db_bob :: state where
  "db_bob = snd (create_user db ''2024-01-01 10:00:00'' (PStr ''Bob'') (PStr ''bob@x.com''))"

definition db_ab :: state where
  "db_ab = snd (create_user
             (snd (create_user db ''2024-01-01 10:00:00'' (PStr ''A'') (PStr ''a@x.com'')))
             ''2024-01-01 10:00:01'' (PStr ''B'') (PStr ''b@x.com''))"

definition db_leak :: state where
  "db_leak = snd (create_user db_bob ''2024-01-01 10:00:05'' (PStr ''Bob2'') (PStr ''bob@x.com''))"

definition db_full :: state where
  "db_full = \<lparr>table = [\<lparr>row_id = 2 ^ 63 - 1, name = ''Max'', email = ''max@x.com'',
                         created_at = Some ''2024-01-01 09:00:00''\<rparr>],
              sqlite_sequence = 2 ^ 63 - 1, open_conns = 0, write_lock = False, trace = []\<rparr>"

section \<open>Evaluation of the examples\<close>

lemmas engine_defs =
  log_event_def get_connection_def close_def commit_def select_by_id_def insert_user_def
  update_row_def delete_row_def select_page_def select_count_def handle_def largest_rowid_def
  set_fields_def none_row_error_def assignment_def fits_int64_def

lemmas method_defs =
  create_user_def create_try_def read_user_def read_all_users_def update_user_def
  update_try_def delete_user_def bad_user_id_def

lemma db_eq:
  "db = \<lparr>table = [], sqlite_sequence = 0, open_conns = 0, write_lock = False,
         trace = [Connect, Execute Create_Table, Commit, Close]\<rparr>"
  by (simp add: db_def init_database_def new_file_def engine_defs)

lemma strip_Bob: "strip ''Bob'' = ''Bob''" "strip ''bob@x.com'' = ''bob@x.com''"
  "strip ''Bob2'' = ''Bob2''"
  by (simp_all add: strip_def isspace_def)

lemma db_bob_eq:
  "db_bob = \<lparr>table = [\<lparr>row_id = 1, name = ''Bob'', email = ''bob@x.com'',
                        created_at = Some ''2024-01-01 10:00:00''\<rparr>],
             sqlite_sequence = 1, open_conns = 0, write_lock = False,
             trace = [Connect, Execute Create_Table, Commit, Close, Connect,
                      Execute (Insert_User ''Bob'' ''bob@x.com''), Commit,
                      Execute (Select_By_Id 1), Close]\<rparr>"
  by (simp add: db_bob_def db_eq method_defs engine_defs strip_Bob)

lemma db_leak_eq:
  "db_leak = db_bob\<lparr>open_conns := 1, write_lock := True,
                    trace := trace db_bob @ [Connect, Execute (Insert_User ''Bob2'' ''bob@x.com'')]\<rparr>"
  by (simp add: db_leak_def db_bob_eq method_defs engine_defs strip_Bob)

lemma on_integrity_error_not_found [simp]: "on_integrity_error (not_found i) = not_found i"
  by (simp add: not_found_def)

section \<open>Trimming, lookup and the single operations\<close>

lemma dropWhile_keeps: "x \<in> set xs \<Longrightarrow> \<not> P x \<Longrightarrow> x \<in> set (dropWhile P xs)"
  by (induction xs) auto

lemma at_not_space: "\<not> isspace CHR ''@''"
  by (simp add: isspace_def)

lemma at_in_strip: "CHR ''@'' \<in> set s \<Longrightarrow> CHR ''@'' \<in> set (strip s)"
  by (simp add: strip_def dropWhile_keeps at_not_space)

lemma dropWhile_fixed: "xs = [] \<or> \<not> P (hd xs) \<Longrightarrow> dropWhile P xs = xs"
  by (cases xs) auto

lemma trim_right_keeps_hd:
  "xs = [] \<or> \<not> P (hd xs) \<Longrightarrow>
     rev (dropWhile P (rev xs)) = [] \<or> \<not> P (hd (rev (dropWhile P (rev xs))))"
  by (metis dropWhile_fixed dropWhile_last hd_rev last_in_set last_rev rev.simps(1))

lemma strip_strip: "strip (strip s) = strip s"
proof -
  let ?t = "dropWhile isspace s"
  have "?t = [] \<or> \<not> isspace (hd ?t)"
    using hd_dropWhile by blast
  then have "strip s = [] \<or> \<not> isspace (hd (strip s))"
    unfolding strip_def by (rule trim_right_keeps_hd)
  then have "dropWhile isspace (strip s) = strip s"
    by (rule dropWhile_fixed)
  then show ?thesis
    by (simp add: strip_def dropWhile_idem)
qed

lemma strip_Nil [simp]: "strip [] = []"
  by (simp add: strip_def)

lemma on_integrity_error_other [simp]:
  "on_integrity_error overflow_error = overflow_error"
  "on_integrity_error locked_error = locked_error"
  "on_integrity_error full_error = full_error"
  "on_integrity_error unique_error = duplicate_error"
  by (simp_all add: overflow_error_def locked_error_def full_error_def unique_error_def
        duplicate_error_def)

lemma fold_max_bounded: "\<forall>x \<in> set xs. x \<le> a \<Longrightarrow> fold max xs a = (a::int)"
  by (induction xs) (auto simp add: max_def)

lemma largest_id_ok: "table_ok s \<Longrightarrow> largest_rowid s = sqlite_sequence s"
  by (simp add: largest_rowid_def table_ok_def fold_max_bounded list_all_iff row_ok_def)

lemma existing_id_fits: "table_ok s \<Longrightarrow> r \<in> set (table s) \<Longrightarrow> 0 < row_id r \<and> fits_int64 (row_id r)"
  by (auto simp add: table_ok_def list_all_iff row_ok_def fits_int64_def)

lemma find_by_key:
  "distinct (map f xs) \<Longrightarrow> r \<in> set xs \<Longrightarrow> find (\<lambda>x. f x = f r) xs = Some r"
  by (induction xs) auto

lemma find_snoc:
  "find P (xs @ [y]) = (case find P xs of None \<Rightarrow> (if P y then Some y else None) | Some x \<Rightarrow> Some x)"
  by (induction xs) auto

lemma find_hit: "find P xs = Some x \<Longrightarrow> P x \<and> x \<in> set xs"
  by (induction xs) (auto split: if_splits)

lemma create_user_succeeds:
  assumes ok: "table_ok s" and free: "\<not> write_lock s" and room: "sqlite_sequence s < 2 ^ 63 - 1"
    and nm: "strip nm \<noteq> []" and em: "CHR ''@'' \<in> set em"
    and fresh: "strip em \<notin> set (map email (table s))"
    and u: "u = \<lparr>row_id = sqlite_sequence s + 1, name = strip nm, email = strip em,
                  created_at = Some now\<rparr>"
  shows "create_user s now (PStr nm) (PStr em) =
     (Inr \<lparr>success = True, data = One u, message = Some ''User created successfully'',
           pagination = None\<rparr>,
      s\<lparr>table := table s @ [u], sqlite_sequence := sqlite_sequence s + 1,
        trace := trace s @ [Connect, Execute (Insert_User (strip nm) (strip em)), Commit,
                            Execute (Select_By_Id (sqlite_sequence s + 1)), Close]\<rparr>)"
proof -
  have nm0: "nm \<noteq> []" using nm by auto
  have em0: "em \<noteq> []" using em by auto
  have old: "find (\<lambda>r. row_id r = sqlite_sequence s + 1) (table s) = None"
    using ok by (auto simp add: find_None_iff table_ok_def list_all_iff row_ok_def)
  have big: "largest_rowid (get_connection s) = sqlite_sequence s"
    using largest_id_ok [OF ok] by (simp add: largest_rowid_def get_connection_def log_event_def)
  have fits: "fits_int64 (sqlite_sequence s + 1)"
    using ok room by (simp add: fits_int64_def table_ok_def)
  show ?thesis
    using nm nm0 em em0 fresh old free room big fits
    by (simp add: create_user_def create_try_def u find_snoc Let_def
          log_event_def get_connection_def close_def commit_def select_by_id_def
          insert_user_def handle_def)
qed

lemma create_user_duplicate:
  assumes ok: "table_ok s" and free: "\<not> write_lock s" and room: "sqlite_sequence s < 2 ^ 63 - 1"
    and nm: "strip nm \<noteq> []" and em: "CHR ''@'' \<in> set em"
    and dup: "strip em \<in> set (map email (table s))"
  shows "create_user s now (PStr nm) (PStr em) =
     (Inl duplicate_error,
      s\<lparr>open_conns := Suc (open_conns s), write_lock := True,
        trace := trace s @ [Connect, Execute (Insert_User (strip nm) (strip em))]\<rparr>)"
proof -
  have nm0: "nm \<noteq> []" using nm by auto
  have em0: "em \<noteq> []" using em by auto
  have big: "largest_rowid (get_connection s) = sqlite_sequence s"
    using largest_id_ok [OF ok] by (simp add: largest_rowid_def get_connection_def log_event_def)
  show ?thesis
    using nm nm0 em em0 dup free room big
    by (simp add: create_user_def create_try_def Let_def
          log_event_def get_connection_def insert_user_def handle_def)
qed

lemma create_user_locked:
  assumes held: "write_lock s" and nm: "strip nm \<noteq> []" and em: "CHR ''@'' \<in> set em"
  shows "create_user s now (PStr nm) (PStr em) =
     (Inl locked_error,
      s\<lparr>open_conns := Suc (open_conns s),
        trace := trace s @ [Connect, Execute (Insert_User (strip nm) (strip em))]\<rparr>)"
proof -
  have nm0: "nm \<noteq> []" using nm by auto
  have em0: "em \<noteq> []" using em by auto
  show ?thesis
    using nm nm0 em em0 held
    by (simp add: create_user_def create_try_def Let_def
          log_event_def get_connection_def insert_user_def handle_def)
qed


lemma read_user_missing:
  assumes "0 < i" and "fits_int64 i" and "find (\<lambda>r. row_id r = i) (table s) = None"
  shows "read_user s (PInt i) =
     (Inl (not_found i), s\<lparr>trace := trace s @ [Connect, Execute (Select_By_Id i), Close]\<rparr>)"
  using assms
  by (simp add: read_user_def bad_user_id_def log_event_def get_connection_def close_def
        select_by_id_def handle_def)

lemma table_ok_db: "table_ok db"
  by (simp add: db_eq table_ok_def)

lemma table_ok_db_bob: "table_ok db_bob"
  by (simp add: db_bob_eq table_ok_def row_ok_def strip_Bob)

lemma table_ok_db_leak: "table_ok db_leak"
  using table_ok_db_bob by (simp add: db_leak_eq table_ok_def)

lemma table_ok_db_full: "table_ok db_full"
  by (simp add: db_full_def table_ok_def row_ok_def strip_def isspace_def)

lemma reachable_db_leak: "reachable db_leak"
  unfolding db_leak_def db_bob_def by (intro reachable.create reachable.start)

section \<open>Update without a field\<close>

text \<open>
  Claim C9. In every state and for every id, \<open>update_user\<close> with neither name nor email
  (both \<open>None\<close>, the defaults) fails with a validation error and returns the state it was
  given: no row, counter, connection or trace entry differs. For an id that passes the id
  check the error is the one of the at-least-one-field check.
\<close>

theorem update_without_fields_rejected:
  "\<exists>e. update_user s user_id PNone PNone = (Inl e, s) \<and> is_validation_error e \<and>
       (\<not> bad_user_id user_id \<longrightarrow>
          e = ValueError ''At least one field (name or email) must be provided'')"
  by (simp add: update_user_def validation_messages_def)

theorem update_without_fields_rejected_witness:
  "\<not> bad_user_id (PInt 1) \<and>
   update_user db_bob (PInt 1) PNone PNone =
     (Inl (ValueError ''At least one field (name or email) must be provided''), db_bob)"
  using update_without_fields_rejected [of db_bob "PInt 1"]
  by (auto simp add: bad_user_id_def)

section \<open>Connections on the error paths\<close>

text \<open>
  Claim C2. The claim asks that every operation closes the connection it opened on every
  exit path. In the state with the one user Bob no connection is open. \<open>create_user\<close>
  with Bob's email, \<open>delete_user\<close> and \<open>update_user\<close> with the unused id 7 each fail
  and return with one connection open: the trace ends after the statement, with no
  \<open>Close\<close>; the connection of the failed \<open>INSERT\<close> also keeps the write lock.
  \<open>read_user\<close> with the same id closes before it raises.
\<close>

theorem error_paths_leave_connection_open:
  "open_conns db_bob = 0 \<and>
   create_user db_bob ''2024-01-01 10:00:05'' (PStr ''Bob2'') (PStr ''bob@x.com'') =
     (Inl duplicate_error,
      db_bob\<lparr>open_conns := 1, write_lock := True,
             trace := trace db_bob @ [Connect, Execute (Insert_User ''Bob2'' ''bob@x.com'')]\<rparr>) \<and>
   delete_user db_bob (PInt 7) =
     (Inl (not_found 7),
      db_bob\<lparr>open_conns := 1, trace := trace db_bob @ [Connect, Execute (Select_By_Id 7)]\<rparr>) \<and>
   update_user db_bob (PInt 7) (PStr ''Eve'') PNone =
     (Inl (not_found 7),
      db_bob\<lparr>open_conns := 1, trace := trace db_bob @ [Connect, Execute (Select_By_Id 7)]\<rparr>) \<and>
   read_user db_bob (PInt 7) =
     (Inl (not_found 7),
      db_bob\<lparr>trace := trace db_bob @ [Connect, Execute (Select_By_Id 7), Close]\<rparr>)"
  by (simp add: db_bob_eq method_defs engine_defs duplicate_error_def unique_error_def strip_def isspace_def)

theorem error_paths_leave_connection_open_witness:
  "open_conns (snd (create_user db_bob ''2024-01-01 10:00:05'' (PStr ''Bob2'') (PStr ''bob@x.com''))) = 1 \<and>
   open_conns (snd (delete_user db_bob (PInt 7))) = 1 \<and>
   open_conns (snd (update_user db_bob (PInt 7) (PStr ''Eve'') PNone)) = 1 \<and>
   open_conns (snd (read_user db_bob (PInt 7))) = 0"
  using error_paths_leave_connection_open by simp

section \<open>Pagination\<close>

lemma clamp_limit:
  "\<not> isinstance_int limit \<or> the_int limit \<le> 0 \<or> the_int limit > 1000 \<Longrightarrow>
     read_all_users s limit offset = read_all_users s (PInt 100) offset"
  by (auto simp add: read_all_users_def)

lemma clamp_offset:
  "\<not> isinstance_int offset \<or> the_int offset < 0 \<Longrightarrow>
     read_all_users s limit offset = read_all_users s limit (PInt 0)"
  by (auto simp add: read_all_users_def)

lemma read_all_users_returns:
  "\<not> isinstance_int offset \<or> the_int offset < 2 ^ 63 \<Longrightarrow>
     \<exists>r s'. read_all_users s limit offset = (Inr r, s')"
  by (auto simp add: read_all_users_def Let_def engine_defs)

lemma read_all_users_overflow:
  "2 ^ 63 \<le> off \<Longrightarrow> read_all_users s limit (PInt off) = (Inl overflow_error, get_connection s)"
  by (simp add: read_all_users_def Let_def select_page_def handle_def fits_int64_def)

text \<open>
  Claim C7. The claim has \<open>read_all_users\<close> never reject its pagination inputs. The
  clamping is as the claim says: a limit that is not an integer, is at most 0 or is above
  1000 gives the same result and the same state as the limit 100; an offset that is not an
  integer or is negative gives the same as the offset 0; \<open>list(limit=0, offset=-5)\<close> is
  \<open>list(100, 0)\<close>; and every call whose offset is below \<open>2^63\<close> returns a result.
  But the offset has no upper clamp: with the offset \<open>2^63\<close> the call raises
  \<open>OverflowError\<close> when the parameter is bound, in every state and for every limit, and
  returns with the connection open.
\<close>

theorem list_rejects_offset_beyond_int64:
  "read_all_users s limit (PInt (2 ^ 63)) = (Inl overflow_error, get_connection s) \<and>
   (\<not> isinstance_int offset \<or> the_int offset < 2 ^ 63 \<longrightarrow>
      (\<exists>r s'. read_all_users s limit offset = (Inr r, s'))) \<and>
   (\<not> isinstance_int limit \<or> the_int limit \<le> 0 \<or> the_int limit > 1000 \<longrightarrow>
      read_all_users s limit offset = read_all_users s (PInt 100) offset) \<and>
   (\<not> isinstance_int offset \<or> the_int offset < 0 \<longrightarrow>
      read_all_users s limit offset = read_all_users s limit (PInt 0)) \<and>
   read_all_users s (PInt 0) (PInt (- 5)) = read_all_users s (PInt 100) (PInt 0)"
  using read_all_users_returns [of offset s limit] clamp_limit [of limit s offset]
    clamp_offset [of offset s limit] clamp_limit [of "PInt 0" s "PInt (- 5)"]
    clamp_offset [of "PInt (- 5)" s "PInt 100"] read_all_users_overflow [of "2 ^ 63" s limit]
  by simp

theorem list_rejects_offset_beyond_int64_witness:
  "read_all_users db_bob (PInt 10) (PInt (2 ^ 63)) =
     (Inl overflow_error, db_bob\<lparr>open_conns := 1, trace := trace db_bob @ [Connect]\<rparr>) \<and>
   (\<exists>r s'. read_all_users db_bob (PInt 5000) (PInt (- 3)) = (Inr r, s')) \<and>
   read_all_users db_bob (PInt 5000) (PInt (- 3)) = read_all_users db_bob (PInt 100) (PInt (- 3)) \<and>
   read_all_users db_bob (PInt 5000) (PInt (- 3)) = read_all_users db_bob (PInt 5000) (PInt 0) \<and>
   read_all_users db_bob (PInt 0) (PInt (- 5)) = read_all_users db_bob (PInt 100) (PInt 0)"
proof -
  note t = list_rejects_offset_beyond_int64 [of db_bob _ "PInt (- 3)"]
  have limit_out: "the_int (PInt 5000) > 1000" and offset_out: "the_int (PInt (- 3)) < 0"
    and offset_fits: "the_int (PInt (- 3)) < 2 ^ 63"
    by simp_all
  have conn: "get_connection db_bob = db_bob\<lparr>open_conns := 1, trace := trace db_bob @ [Connect]\<rparr>"
    by (simp add: get_connection_def log_event_def db_bob_eq)
  from t [of "PInt 10"] have a: "read_all_users db_bob (PInt 10) (PInt (2 ^ 63)) =
     (Inl overflow_error, db_bob\<lparr>open_conns := 1, trace := trace db_bob @ [Connect]\<rparr>)"
    unfolding conn by (rule conjunct1)
  from t [of "PInt 5000"] limit_out offset_out offset_fits
  have "\<exists>r s'. read_all_users db_bob (PInt 5000) (PInt (- 3)) = (Inr r, s')"
    and "read_all_users db_bob (PInt 5000) (PInt (- 3)) = read_all_users db_bob (PInt 100) (PInt (- 3))"
    and "read_all_users db_bob (PInt 5000) (PInt (- 3)) = read_all_users db_bob (PInt 5000) (PInt 0)"
    and "read_all_users db_bob (PInt 0) (PInt (- 5)) = read_all_users db_bob (PInt 100) (PInt 0)"
    by blast+
  with a show ?thesis by blast
qed

section \<open>Listing\<close>

lemma strip_AB:
  "strip ''A'' = ''A''" "strip ''B'' = ''B''" "strip ''a@x.com'' = ''a@x.com''"
  "strip ''b@x.com'' = ''b@x.com''"
  by (simp_all add: strip_def isspace_def)

lemma db_ab_eq:
  "db_ab = \<lparr>table = [\<lparr>row_id = 1, name = ''A'', email = ''a@x.com'',
                       created_at = Some ''2024-01-01 10:00:00''\<rparr>,
                      \<lparr>row_id = 2, name = ''B'', email = ''b@x.com'',
                       created_at = Some ''2024-01-01 10:00:01''\<rparr>],
            sqlite_sequence = 2, open_conns = 0, write_lock = False,
            trace = [Connect, Execute Create_Table, Commit, Close,
                     Connect, Execute (Insert_User ''A'' ''a@x.com''), Commit,
                     Execute (Select_By_Id 1), Close,
                     Connect, Execute (Insert_User ''B'' ''b@x.com''), Commit,
                     Execute (Select_By_Id 2), Close]\<rparr>"
  by (simp add: db_ab_def db_eq method_defs engine_defs strip_AB)

lemma table_ok_db_ab: "table_ok db_ab"
  by (simp add: db_ab_eq table_ok_def row_ok_def strip_AB)

lemma descending_order:
  assumes "distinct (map row_id t)"
  shows "id_descending (rev (sort_key row_id t))"
proof -
  have "mset (map row_id (sort_key row_id t)) = mset (map row_id t)"
    by simp
  then have "distinct (map row_id (sort_key row_id t))"
    using assms by (metis mset_eq_imp_distinct_iff)
  then have "sorted_wrt (<) (map row_id (sort_key row_id t))"
    by (simp add: strict_sorted_iff)
  then show ?thesis
    by (simp add: id_descending_def sorted_wrt_rev sorted_wrt_map)
qed

lemma id_descending_window:
  "id_descending us \<Longrightarrow> id_descending (take n (drop k us))"
  unfolding id_descending_def by (simp add: sorted_wrt_take sorted_wrt_drop)

lemma read_all_users_clamped:
  assumes "0 < lim" and "lim \<le> 1000" and "0 \<le> off" and "off < 2 ^ 63"
  shows "read_all_users s (PInt lim) (PInt off) =
     (Inr \<lparr>success = True,
           data = Many (take (nat lim) (drop (nat off) (rev (sort_key row_id (table s))))),
           message = None,
           pagination = Some \<lparr>pg_total = int (length (table s)), pg_limit = lim,
                               pg_offset = off\<rparr>\<rparr>,
      s\<lparr>trace := trace s @ [Connect, Execute (Select_Page lim off), Execute Select_Count,
                            Close]\<rparr>)"
  using assms
  by (simp add: read_all_users_def log_event_def get_connection_def close_def
        select_page_def select_count_def handle_def fits_int64_def)

text \<open>
  Claim C6. The claim covers every clamped limit and offset. For a limit in 1..1000 and
  an offset from 0 to below \<open>2^63\<close>, in a consistent state, \<open>read_all_users\<close> returns
  the window of \<open>limit\<close> records after the first \<open>offset\<close> of the whole table arranged
  by descending id: the arrangement is a permutation of the table with strictly falling
  ids, and so is the window; the total is the number of all records, whatever the window,
  and the table is as before. After \<open>create("A","a@x.com")\<close> and
  \<open>create("B","b@x.com")\<close> on the new database, \<open>list(limit=1, offset=0)\<close> returns the
  record of B alone, with total 2. But with the offset \<open>2^63\<close>, which no clamp
  changes, the call on the same database returns no records and no total: it raises
  \<open>OverflowError\<close>.
\<close>

theorem list_newest_first_with_total:
  assumes ok: "table_ok s" and lim: "0 < lim" "lim \<le> 1000" and off: "0 \<le> off" "off < 2 ^ 63"
  shows "(\<exists>full users s'.
       read_all_users s (PInt lim) (PInt off) =
         (Inr \<lparr>success = True, data = Many users, message = None,
               pagination = Some \<lparr>pg_total = int (length (table s)), pg_limit = lim,
                                   pg_offset = off\<rparr>\<rparr>, s') \<and>
       mset full = mset (table s) \<and> id_descending full \<and>
       users = take (nat lim) (drop (nat off) full) \<and> id_descending users \<and>
       table s' = table s) \<and>
     fst (read_all_users db_ab (PInt 1) (PInt 0)) =
       Inr \<lparr>success = True,
            data = Many [\<lparr>row_id = 2, name = ''B'', email = ''b@x.com'',
                          created_at = Some ''2024-01-01 10:00:01''\<rparr>],
            message = None,
            pagination = Some \<lparr>pg_total = 2, pg_limit = 1, pg_offset = 0\<rparr>\<rparr> \<and>
     read_all_users db_ab (PInt 1) (PInt (2 ^ 63)) =
       (Inl overflow_error, db_ab\<lparr>open_conns := 1, trace := trace db_ab @ [Connect]\<rparr>)"
proof (intro conjI)
  let ?full = "rev (sort_key row_id (table s))"
  have perm: "mset ?full = mset (table s)"
    by simp
  have desc: "id_descending ?full"
    using ok by (simp add: table_ok_def descending_order)
  from read_all_users_clamped [OF lim off, of s] perm desc id_descending_window [OF desc]
  show "\<exists>full users s'.
       read_all_users s (PInt lim) (PInt off) =
         (Inr \<lparr>success = True, data = Many users, message = None,
               pagination = Some \<lparr>pg_total = int (length (table s)), pg_limit = lim,
                                   pg_offset = off\<rparr>\<rparr>, s') \<and>
       mset full = mset (table s) \<and> id_descending full \<and>
       users = take (nat lim) (drop (nat off) full) \<and> id_descending users \<and>
       table s' = table s"
    by (intro exI [of _ ?full] exI [of _ "take (nat lim) (drop (nat off) ?full)"]) simp
next
  show "fst (read_all_users db_ab (PInt 1) (PInt 0)) =
       Inr \<lparr>success = True,
            data = Many [\<lparr>row_id = 2, name = ''B'', email = ''b@x.com'',
                          created_at = Some ''2024-01-01 10:00:01''\<rparr>],
            message = None,
            pagination = Some \<lparr>pg_total = 2, pg_limit = 1, pg_offset = 0\<rparr>\<rparr>"
    by (simp add: read_all_users_clamped db_ab_eq)
next
  show "read_all_users db_ab (PInt 1) (PInt (2 ^ 63)) =
       (Inl overflow_error, db_ab\<lparr>open_conns := 1, trace := trace db_ab @ [Connect]\<rparr>)"
    by (simp add: read_all_users_overflow get_connection_def log_event_def db_ab_eq)
qed

text \<open>The second page of the same table: the record of A, total 2.\<close>

theorem list_newest_first_with_total_witness:
  "table_ok db_ab \<and> (0::int) < 1 \<and> (1::int) \<le> 1000 \<and> (0::int) \<le> 1 \<and> (1::int) < 2 ^ 63 \<and>
   (\<exists>full users s'.
       read_all_users db_ab (PInt 1) (PInt 1) =
         (Inr \<lparr>success = True, data = Many users, message = None,
               pagination = Some \<lparr>pg_total = 2, pg_limit = 1, pg_offset = 1\<rparr>\<rparr>, s') \<and>
       mset full = mset (table db_ab) \<and> id_descending full \<and>
       users = take 1 (drop 1 full) \<and> id_descending users \<and>
       table s' = table db_ab) \<and>
   fst (read_all_users db_ab (PInt 1) (PInt 1)) =
       Inr \<lparr>success = True,
            data = Many [\<lparr>row_id = 1, name = ''A'', email = ''a@x.com'',
                          created_at = Some ''2024-01-01 10:00:00''\<rparr>],
            message = None,
            pagination = Some \<lparr>pg_total = 2, pg_limit = 1, pg_offset = 1\<rparr>\<rparr> \<and>
   fst (read_all_users db_ab (PInt 1) (PInt (2 ^ 63))) = Inl overflow_error"
proof -
  have len: "int (length (table db_ab)) = 2" by (simp add: db_ab_eq)
  note t = list_newest_first_with_total [OF table_ok_db_ab, of 1 1]
  from t
  have "\<exists>full users s'.
       read_all_users db_ab (PInt 1) (PInt 1) =
         (Inr \<lparr>success = True, data = Many users, message = None,
               pagination = Some \<lparr>pg_total = 2, pg_limit = 1, pg_offset = 1\<rparr>\<rparr>, s') \<and>
       mset full = mset (table db_ab) \<and> id_descending full \<and>
       users = take 1 (drop 1 full) \<and> id_descending users \<and>
       table s' = table db_ab"
    by (simp add: len)
  moreover have "fst (read_all_users db_ab (PInt 1) (PInt 1)) =
       Inr \<lparr>success = True,
            data = Many [\<lparr>row_id = 1, name = ''A'', email = ''a@x.com'',
                          created_at = Some ''2024-01-01 10:00:00''\<rparr>],
            message = None,
            pagination = Some \<lparr>pg_total = 2, pg_limit = 1, pg_offset = 1\<rparr>\<rparr>"
    by (simp add: read_all_users_clamped db_ab_eq)
  moreover from t have "fst (read_all_users db_ab (PInt 1) (PInt (2 ^ 63))) = Inl overflow_error"
    by simp
  ultimately show ?thesis using table_ok_db_ab by simp
qed

section \<open>Create and read back\<close>




section \<open>Duplicate emails\<close>




section \<open>Delete\<close>

lemma delete_user_found:
  assumes "0 < i" and "fits_int64 i" and "\<not> write_lock s"
    and "find (\<lambda>r. row_id r = i) (table s) = Some r"
  shows "delete_user s (PInt i) =
     (Inr \<lparr>success = True, data = One r,
           message = Some (''User '' @ str_int i @ '' deleted successfully''),
           pagination = None\<rparr>,
      s\<lparr>table := filter (\<lambda>x. row_id x \<noteq> i) (table s),
        trace := trace s @ [Connect, Execute (Select_By_Id i), Execute (Delete_User i),
                            Commit, Close]\<rparr>)"
  using assms
  by (simp add: delete_user_def bad_user_id_def log_event_def get_connection_def close_def
        commit_def delete_row_def select_by_id_def handle_def)

lemma delete_user_missing:
  assumes "0 < i" and "fits_int64 i" and "find (\<lambda>r. row_id r = i) (table s) = None"
  shows "delete_user s (PInt i) =
     (Inl (not_found i),
      s\<lparr>open_conns := Suc (open_conns s),
        trace := trace s @ [Connect, Execute (Select_By_Id i)]\<rparr>)"
  using assms
  by (simp add: delete_user_def bad_user_id_def log_event_def get_connection_def
        select_by_id_def handle_def)

lemma filter_other_ids:
  "distinct (map row_id t) \<Longrightarrow> r \<in> set t \<Longrightarrow>
     set (filter (\<lambda>x. row_id x \<noteq> row_id r) t) = set t - {r}"
  by (auto simp add: distinct_map inj_on_def)

text \<open>
  Claim C4, as amended. In a consistent state whose write lock no connection left open
  holds, \<open>delete_user\<close> with the id of a record succeeds, returns that record as it was,
  and leaves exactly the other records in the table, so that \<open>read_user\<close> with the id
  then fails with the not-found error. With a positive id below \<open>2^63\<close> that no record
  has it fails with the not-found error and the table and the id counter are as before.
  With an id that is not a positive integer it fails in the id check, with the validation
  error, and the state is the one given.
\<close>

theorem delete_returns_snapshot:
  assumes ok: "table_ok s"
  shows "(r \<in> set (table s) \<and> \<not> write_lock s \<longrightarrow>
           (\<exists>m s' s''.
              delete_user s (PInt (row_id r)) =
                (Inr \<lparr>success = True, data = One r, message = m, pagination = None\<rparr>, s') \<and>
              set (table s') = set (table s) - {r} \<and>
              read_user s' (PInt (row_id r)) = (Inl (not_found (row_id r)), s''))) \<and>
         (0 < i \<and> i < 2 ^ 63 \<and> i \<notin> set (map row_id (table s)) \<longrightarrow>
           (\<exists>s'. delete_user s (PInt i) = (Inl (not_found i), s') \<and>
                 table s' = table s \<and> sqlite_sequence s' = sqlite_sequence s)) \<and>
         (bad_user_id uid \<longrightarrow>
           delete_user s uid = (Inl (ValueError ''User ID must be a positive integer''), s))"
proof (intro conjI impI)
  assume "r \<in> set (table s) \<and> \<not> write_lock s"
  then have r: "r \<in> set (table s)" and free: "\<not> write_lock s"
    by simp_all
  have ids: "distinct (map row_id (table s))"
    using ok by (simp add: table_ok_def)
  from existing_id_fits [OF ok r] have pos: "0 < row_id r" and fits: "fits_int64 (row_id r)"
    by simp_all
  have found: "find (\<lambda>x. row_id x = row_id r) (table s) = Some r"
    using ids r by (rule find_by_key)
  let ?s' = "s\<lparr>table := filter (\<lambda>x. row_id x \<noteq> row_id r) (table s),
        trace := trace s @ [Connect, Execute (Select_By_Id (row_id r)),
                            Execute (Delete_User (row_id r)), Commit, Close]\<rparr>"
  have gone: "find (\<lambda>x. row_id x = row_id r) (table ?s') = None"
    by (simp add: find_None_iff)
  have rest: "set (table ?s') = set (table s) - {r}"
    using filter_other_ids [OF ids r] by simp
  from delete_user_found [OF pos fits free found] read_user_missing [OF pos fits gone] rest
  show "\<exists>m s' s''.
              delete_user s (PInt (row_id r)) =
                (Inr \<lparr>success = True, data = One r, message = m, pagination = None\<rparr>, s') \<and>
              set (table s') = set (table s) - {r} \<and>
              read_user s' (PInt (row_id r)) = (Inl (not_found (row_id r)), s'')"
    by blast
next
  assume "0 < i \<and> i < 2 ^ 63 \<and> i \<notin> set (map row_id (table s))"
  then have pos: "0 < i" and fits: "fits_int64 i"
    and "find (\<lambda>x. row_id x = i) (table s) = None"
    by (auto simp add: find_None_iff fits_int64_def)
  from delete_user_missing [OF this]
  show "\<exists>s'. delete_user s (PInt i) = (Inl (not_found i), s') \<and>
                 table s' = table s \<and> sqlite_sequence s' = sqlite_sequence s"
    by simp
next
  assume "bad_user_id uid"
  then show "delete_user s uid = (Inl (ValueError ''User ID must be a positive integer''), s)"
    by (simp add: delete_user_def)
qed

text \<open>The theorem in the state with the one user Bob: ids 1, 7, -2 and \<open>None\<close>.\<close>

theorem delete_returns_snapshot_witness:
  "table_ok db_bob \<and> \<not> write_lock db_bob \<and>
   (\<exists>m s' s''.
      delete_user db_bob (PInt 1) =
        (Inr \<lparr>success = True,
              data = One \<lparr>row_id = 1, name = ''Bob'', email = ''bob@x.com'',
                          created_at = Some ''2024-01-01 10:00:00''\<rparr>,
              message = m, pagination = None\<rparr>, s') \<and>
      set (table s') = {} \<and>
      read_user s' (PInt 1) = (Inl (not_found 1), s'')) \<and>
   (\<exists>s'. delete_user db_bob (PInt 7) = (Inl (not_found 7), s') \<and>
         table s' = table db_bob \<and> sqlite_sequence s' = sqlite_sequence db_bob) \<and>
   delete_user db_bob (PInt (- 2)) =
     (Inl (ValueError ''User ID must be a positive integer''), db_bob) \<and>
   delete_user db_bob PNone =
     (Inl (ValueError ''User ID must be a positive integer''), db_bob)"
proof -
  let ?bob = "\<lparr>row_id = 1, name = ''Bob'', email = ''bob@x.com'',
               created_at = Some ''2024-01-01 10:00:00''\<rparr>"
  have tab: "table db_bob = [?bob]" and free: "\<not> write_lock db_bob"
    by (simp_all add: db_bob_eq)
  note t = delete_returns_snapshot [OF table_ok_db_bob]
  have a: "\<exists>m s' s''.
      delete_user db_bob (PInt 1) =
        (Inr \<lparr>success = True, data = One ?bob, message = m, pagination = None\<rparr>, s') \<and>
      set (table s') = {} \<and>
      read_user s' (PInt 1) = (Inl (not_found 1), s'')"
    using t [of ?bob 7 PNone] free by (simp add: tab)
  have b: "\<exists>s'. delete_user db_bob (PInt 7) = (Inl (not_found 7), s') \<and>
         table s' = table db_bob \<and> sqlite_sequence s' = sqlite_sequence db_bob"
    using t [of ?bob 7 PNone] by (simp add: tab)
  have c: "delete_user db_bob (PInt (- 2)) =
     (Inl (ValueError ''User ID must be a positive integer''), db_bob)"
    using t [of ?bob 7 "PInt (- 2)"] by (simp add: bad_user_id_def)
  have d: "delete_user db_bob PNone =
     (Inl (ValueError ''User ID must be a positive integer''), db_bob)"
    using t [of ?bob 7 PNone] by (simp add: bad_user_id_def)
  from table_ok_db_bob free a b c d show ?thesis by blast
qed

text \<open>
  Claim C4 as stated asks for success for every id with a record and for the not-found
  error for every id without one. No record has the id 0, and \<open>delete_user\<close> with 0 fails
  with the validation error of the id check. No record has the id \<open>2^63\<close>, and with it
  the lookup raises \<open>OverflowError\<close>. In the state after a create with Bob's email has
  failed, Bob's record has the id 1, and \<open>delete_user\<close> with 1 fails with the
  \<open>OperationalError\<close> of the locked database and Bob's record stays.
\<close>

theorem delete_not_always_found_or_not_found:
  "(0::int) \<notin> set (map row_id (table db_bob)) \<and>
   delete_user db_bob (PInt 0) =
     (Inl (ValueError ''User ID must be a positive integer''), db_bob) \<and>
   ValueError ''User ID must be a positive integer'' \<noteq> not_found 0 \<and>
   is_validation_error (ValueError ''User ID must be a positive integer'') \<and>
   (2 ^ 63 :: int) \<notin> set (map row_id (table db_bob)) \<and>
   fst (delete_user db_bob (PInt (2 ^ 63))) = Inl overflow_error \<and>
   overflow_error \<noteq> not_found (2 ^ 63) \<and>
   (1::int) \<in> set (map row_id (table db_leak)) \<and>
   fst (delete_user db_leak (PInt 1)) = Inl locked_error \<and>
   table (snd (delete_user db_leak (PInt 1))) = table db_leak"
  by (simp add: db_leak_eq db_bob_eq delete_user_def bad_user_id_def not_found_def
        validation_messages_def engine_defs overflow_error_def)

section \<open>Update\<close>

lemma row_id_set_fields [simp]: "row_id (set_fields a b r) = row_id r"
  by (simp add: set_fields_def split: option.splits)

lemma created_at_set_fields [simp]: "created_at (set_fields a b r) = created_at r"
  by (simp add: set_fields_def split: option.splits)

lemma name_set_fields [simp]:
  "name (set_fields a b r) = (case a of None \<Rightarrow> name r | Some n \<Rightarrow> n)"
  by (simp add: set_fields_def split: option.splits)

lemma email_set_fields [simp]:
  "email (set_fields a b r) = (case b of None \<Rightarrow> email r | Some e \<Rightarrow> e)"
  by (simp add: set_fields_def split: option.splits)

lemma find_updated:
  "find (\<lambda>r. row_id r = i) (map (\<lambda>r. if row_id r = i then set_fields a b r else r) t) =
     map_option (set_fields a b) (find (\<lambda>r. row_id r = i) t)"
  by (induction t) auto

lemma update_user_applies:
  assumes pos: "0 < i" and fits: "fits_int64 i" and free: "\<not> write_lock s"
    and old: "find (\<lambda>r. row_id r = i) (table s) = Some old"
    and some: "truthy nm \<or> truthy em"
    and nm: "truthy nm \<longrightarrow> isinstance_str nm \<and> strip (the_str nm) \<noteq> []"
    and em: "truthy em \<longrightarrow> isinstance_str em \<and> CHR ''@'' \<in> set (the_str em)"
    and unused: "truthy em \<longrightarrow> (\<forall>x \<in> set (table s). row_id x \<noteq> i \<longrightarrow> email x \<noteq> strip (the_str em))"
  shows "update_user s (PInt i) nm em =
     (Inr \<lparr>success = True, data = One (set_fields (assignment nm) (assignment em) old),
           message = Some ''User updated successfully'', pagination = None\<rparr>,
      s\<lparr>table := map (\<lambda>r. if row_id r = i
                            then set_fields (assignment nm) (assignment em) r else r) (table s),
        trace := trace s @ [Connect, Execute (Select_By_Id i),
                            Execute (Update_User (assignment nm) (assignment em) i),
                            Commit, Execute (Select_By_Id i), Close]\<rparr>)"
  using assms
  by (auto simp add: update_user_def update_try_def bad_user_id_def assignment_def Let_def
        log_event_def get_connection_def close_def commit_def select_by_id_def update_row_def
        handle_def find_updated)

lemma update_user_locked:
  assumes pos: "0 < i" and fits: "fits_int64 i" and held: "write_lock s"
    and old: "find (\<lambda>r. row_id r = i) (table s) = Some old"
    and some: "truthy nm \<or> truthy em"
    and nm: "truthy nm \<longrightarrow> isinstance_str nm \<and> strip (the_str nm) \<noteq> []"
    and em: "truthy em \<longrightarrow> isinstance_str em \<and> CHR ''@'' \<in> set (the_str em)"
  shows "update_user s (PInt i) nm em =
     (Inl locked_error,
      s\<lparr>open_conns := Suc (open_conns s),
        trace := trace s @ [Connect, Execute (Select_By_Id i),
                            Execute (Update_User (assignment nm) (assignment em) i)]\<rparr>)"
  using assms
  by (auto simp add: update_user_def update_try_def bad_user_id_def Let_def
        log_event_def get_connection_def select_by_id_def update_row_def handle_def)

lemma update_user_success:
  assumes "update_user s uid nm em = (Inr rep, s')"
  shows "\<exists>old. find (\<lambda>r. row_id r = the_int uid) (table s) = Some old \<and>
     data rep = One (set_fields (assignment nm) (assignment em) old) \<and>
     table s' = map (\<lambda>r. if row_id r = the_int uid
                           then set_fields (assignment nm) (assignment em) r else r) (table s)"
  using assms
  by (auto simp add: update_user_def update_try_def Let_def
        log_event_def get_connection_def close_def commit_def select_by_id_def update_row_def
        handle_def find_updated none_row_error_def
        split: if_splits option.splits sum.splits prod.splits)

text \<open>
  Claim C5. When \<open>update_user\<close> succeeds, the id named a record; the record returned,
  which is the record the table now holds under that id, has the id and the
  \<open>created_at\<close> of the old one; its name is the trimmed name given if one was supplied and
  the old name otherwise, and the same holds of the email. No row of the table changes
  its id or its \<open>created_at\<close>, and a row with another id does not change at all.
\<close>

theorem update_changes_only_supplied_fields:
  assumes run: "update_user s uid nm em = (Inr rep, s')"
  shows "\<exists>old new.
     find (\<lambda>r. row_id r = the_int uid) (table s) = Some old \<and> data rep = One new \<and>
     find (\<lambda>r. row_id r = the_int uid) (table s') = Some new \<and>
     row_id new = row_id old \<and> created_at new = created_at old \<and>
     name new = (if truthy nm then strip (the_str nm) else name old) \<and>
     email new = (if truthy em then strip (the_str em) else email old) \<and>
     map row_id (table s') = map row_id (table s) \<and>
     map created_at (table s') = map created_at (table s) \<and>
     (\<forall>k < length (table s). row_id (table s ! k) \<noteq> the_int uid \<longrightarrow>
        table s' ! k = table s ! k)"
proof -
  let ?f = "set_fields (assignment nm) (assignment em)"
  from update_user_success [OF run] obtain old where
    old: "find (\<lambda>r. row_id r = the_int uid) (table s) = Some old" and
    rep: "data rep = One (?f old)" and
    tab: "table s' = map (\<lambda>r. if row_id r = the_int uid then ?f r else r) (table s)"
    by blast
  have new: "find (\<lambda>r. row_id r = the_int uid) (table s') = Some (?f old)"
    by (simp add: tab find_updated old)
  have ids: "map row_id (table s') = map row_id (table s)"
    by (simp add: tab)
  have stamps: "map created_at (table s') = map created_at (table s)"
    by (simp add: tab)
  have others: "\<forall>k < length (table s). row_id (table s ! k) \<noteq> the_int uid \<longrightarrow>
        table s' ! k = table s ! k"
    by (simp add: tab)
  have nm: "name (?f old) = (if truthy nm then strip (the_str nm) else name old)"
    by (simp add: assignment_def)
  have em: "email (?f old) = (if truthy em then strip (the_str em) else email old)"
    by (simp add: assignment_def)
  from old rep new ids stamps others nm em show ?thesis
    by (intro exI [of _ old] exI [of _ "?f old"]) simp
qed

text \<open>Bob gets a new email and no name: the name stays.\<close>

theorem update_changes_only_supplied_fields_witness:
  "\<exists>rep s' new.
     update_user db_bob (PInt 1) PNone (PStr ''rob@x.com'') = (Inr rep, s') \<and>
     data rep = One new \<and> row_id new = 1 \<and> name new = ''Bob'' \<and>
     email new = ''rob@x.com'' \<and> created_at new = Some ''2024-01-01 10:00:00''"
proof -
  let ?bob = "\<lparr>row_id = 1, name = ''Bob'', email = ''bob@x.com'',
               created_at = Some ''2024-01-01 10:00:00''\<rparr>"
  have old: "find (\<lambda>r. row_id r = 1) (table db_bob) = Some ?bob"
    by (simp add: db_bob_eq)
  have "\<exists>rep s'. update_user db_bob (PInt 1) PNone (PStr ''rob@x.com'') = (Inr rep, s')"
    using update_user_applies [OF _ _ _ old, of PNone "PStr ''rob@x.com''"]
    by (simp add: db_bob_eq fits_int64_def)
  then obtain rep s' where
    run: "update_user db_bob (PInt 1) PNone (PStr ''rob@x.com'') = (Inr rep, s')"
    by blast
  from update_changes_only_supplied_fields [OF run] old obtain new where
    "data rep = One new" "row_id new = 1" "created_at new = Some ''2024-01-01 10:00:00''"
    "name new = ''Bob''" "email new = strip ''rob@x.com''"
    by auto
  moreover have "strip ''rob@x.com'' = ''rob@x.com''"
    by (simp add: strip_def isspace_def)
  ultimately show ?thesis using run by auto
qed

section \<open>Empty strings in update\<close>






section \<open>Validation and the storage layer\<close>

lemma not_found_not_validation [simp]: "\<not> is_validation_error (not_found i)"
  by (simp add: not_found_def validation_messages_def)

lemma engine_errors_not_validation [simp]:
  "\<not> is_validation_error overflow_error" "\<not> is_validation_error locked_error"
  "\<not> is_validation_error full_error" "\<not> is_validation_error duplicate_error"
  by (simp_all add: overflow_error_def locked_error_def full_error_def duplicate_error_def
        validation_messages_def)

lemma create_validation_untouched:
  "create_user s now nm em = (Inl e, s') \<Longrightarrow> is_validation_error e \<Longrightarrow> s' = s"
  by (auto simp add: create_user_def create_try_def handle_def insert_user_def Let_def
        select_by_id_def none_row_error_def
        split: if_splits prod.splits sum.splits option.splits)

lemma read_validation_untouched:
  "read_user s uid = (Inl e, s') \<Longrightarrow> is_validation_error e \<Longrightarrow> s' = s"
  by (auto simp add: read_user_def handle_def select_by_id_def Let_def
        split: if_splits prod.splits sum.splits option.splits)

lemma delete_validation_untouched:
  "delete_user s uid = (Inl e, s') \<Longrightarrow> is_validation_error e \<Longrightarrow> s' = s"
  by (auto simp add: delete_user_def handle_def select_by_id_def delete_row_def Let_def
        split: if_splits prod.splits sum.splits option.splits)

lemma update_early_validation_untouched:
  "update_user s uid nm em = (Inl e, s') \<Longrightarrow>
     e = ValueError ''User ID must be a positive integer'' \<or>
     e = ValueError ''At least one field (name or email) must be provided'' \<Longrightarrow> s' = s"
  by (auto simp add: update_user_def update_try_def handle_def select_by_id_def Let_def
        update_row_def none_row_error_def not_found_def overflow_error_def locked_error_def
        unique_error_def
        split: if_splits prod.splits sum.splits option.splits)

lemma update_field_validation_after_select:
  "update_user s uid nm em = (Inl e, s') \<Longrightarrow>
     e = ValueError ''Name must be a non-empty string'' \<or>
     e = ValueError ''Email must be a valid email address'' \<Longrightarrow>
     s' = s\<lparr>open_conns := Suc (open_conns s),
            trace := trace s @ [Connect, Execute (Select_By_Id (the_int uid))]\<rparr>"
  by (auto simp add: update_user_def update_try_def handle_def select_by_id_def Let_def
        update_row_def none_row_error_def not_found_def get_connection_def log_event_def
        overflow_error_def locked_error_def unique_error_def
        split: if_splits prod.splits sum.splits option.splits)

text \<open>
  Where each validation error is raised: in \<open>create_user\<close>, \<open>read_user\<close> and
  \<open>delete_user\<close>, and in the id check and the at-least-one-field check of
  \<open>update_user\<close>, before anything is sent to the storage layer; in the checks of a
  supplied name or email of \<open>update_user\<close>, after the connection was opened and the
  lookup of the id has run.
\<close>

lemma validation_errors_and_storage:
  "(create_user s now nm em = (Inl e, s') \<and> is_validation_error e \<longrightarrow> s' = s) \<and>
   (read_user s uid = (Inl e, s') \<and> is_validation_error e \<longrightarrow> s' = s) \<and>
   (delete_user s uid = (Inl e, s') \<and> is_validation_error e \<longrightarrow> s' = s) \<and>
   (update_user s uid nm em = (Inl e, s') \<and>
      (e = ValueError ''User ID must be a positive integer'' \<or>
       e = ValueError ''At least one field (name or email) must be provided'') \<longrightarrow> s' = s) \<and>
   (update_user s uid nm em = (Inl e, s') \<and>
      (e = ValueError ''Name must be a non-empty string'' \<or>
       e = ValueError ''Email must be a valid email address'') \<longrightarrow>
      table s' = table s \<and> sqlite_sequence s' = sqlite_sequence s \<and>
      trace s' = trace s @ [Connect, Execute (Select_By_Id (the_int uid))])"
proof (intro conjI impI)
  assume h: "create_user s now nm em = (Inl e, s') \<and> is_validation_error e"
  from h [THEN conjunct1] h [THEN conjunct2] show "s' = s"
    by (rule create_validation_untouched)
next
  assume h: "read_user s uid = (Inl e, s') \<and> is_validation_error e"
  from h [THEN conjunct1] h [THEN conjunct2] show "s' = s"
    by (rule read_validation_untouched)
next
  assume h: "delete_user s uid = (Inl e, s') \<and> is_validation_error e"
  from h [THEN conjunct1] h [THEN conjunct2] show "s' = s"
    by (rule delete_validation_untouched)
next
  assume h: "update_user s uid nm em = (Inl e, s') \<and>
      (e = ValueError ''User ID must be a positive integer'' \<or>
       e = ValueError ''At least one field (name or email) must be provided'')"
  from h [THEN conjunct1] h [THEN conjunct2] show "s' = s"
    by (rule update_early_validation_untouched)
next
  assume h: "update_user s uid nm em = (Inl e, s') \<and>
      (e = ValueError ''Name must be a non-empty string'' \<or>
       e = ValueError ''Email must be a valid email address'')"
  from h [THEN conjunct1] h [THEN conjunct2]
  have after: "s' = s\<lparr>open_conns := Suc (open_conns s),
             trace := trace s @ [Connect, Execute (Select_By_Id (the_int uid))]\<rparr>"
    by (rule update_field_validation_after_select)
  show "table s' = table s" by (simp add: after)
  show "sqlite_sequence s' = sqlite_sequence s" by (simp add: after)
  show "trace s' = trace s @ [Connect, Execute (Select_By_Id (the_int uid))]"
    by (simp add: after)
qed

text \<open>
  Claim C8. The claim has every validation error raised before any access to the storage
  layer. \<open>create_user\<close> with a blank name fails in the name check and returns the state
  it was given. \<open>update_user\<close> with Bob's id and the same blank name fails with the same
  validation error only after it has opened a connection and run the lookup of the id,
  and returns with that connection open.
\<close>

theorem update_validates_after_select:
  "create_user db_bob ''2024-01-01 10:00:05'' (PStr ''  '') (PStr ''x@y.z'') =
     (Inl (ValueError ''Name must be a non-empty string''), db_bob) \<and>
   update_user db_bob (PInt 1) (PStr ''  '') PNone =
     (Inl (ValueError ''Name must be a non-empty string''),
      db_bob\<lparr>open_conns := 1, trace := trace db_bob @ [Connect, Execute (Select_By_Id 1)]\<rparr>) \<and>
   is_validation_error (ValueError ''Name must be a non-empty string'') \<and>
   trace db_bob @ [Connect, Execute (Select_By_Id 1)] \<noteq> trace db_bob"
  by (simp add: db_bob_eq method_defs engine_defs strip_def isspace_def validation_messages_def)

theorem update_validates_after_select_witness:
  "snd (create_user db_bob ''2024-01-01 10:00:05'' (PStr ''  '') (PStr ''x@y.z'')) = db_bob \<and>
   fst (update_user db_bob (PInt 1) (PStr ''  '') PNone) =
     Inl (ValueError ''Name must be a non-empty string'') \<and>
   trace (snd (update_user db_bob (PInt 1) (PStr ''  '') PNone)) =
     trace db_bob @ [Connect, Execute (Select_By_Id 1)] \<and>
   open_conns (snd (update_user db_bob (PInt 1) (PStr ''  '') PNone)) = 1"
  using update_validates_after_select by simp

section \<open>Every state the manager reaches is consistent\<close>

lemma row_ok_mono: "row_ok hi r \<Longrightarrow> hi \<le> hi' \<Longrightarrow> row_ok hi' r"
  by (simp add: row_ok_def)

lemma table_ok_insert:
  assumes ok: "table_ok s" and room: "sqlite_sequence s < 2 ^ 63 - 1"
    and nm: "strip nm \<noteq> []" and em: "CHR ''@'' \<in> set em"
    and fresh: "strip em \<notin> set (map email (table s))"
  shows "table_ok (s\<lparr>table := table s @ [\<lparr>row_id = sqlite_sequence s + 1, name = strip nm,
                                            email = strip em, created_at = Some now\<rparr>],
                     sqlite_sequence := sqlite_sequence s + 1, trace := tr\<rparr>)"
proof -
  have new: "row_ok (sqlite_sequence s + 1)
      \<lparr>row_id = sqlite_sequence s + 1, name = strip nm, email = strip em, created_at = Some now\<rparr>"
    using ok nm em by (simp add: row_ok_def table_ok_def strip_strip at_in_strip)
  have old: "list_all (row_ok (sqlite_sequence s + 1)) (table s)"
    using ok by (auto simp add: table_ok_def list_all_iff intro: row_ok_mono)
  have ids: "sqlite_sequence s + 1 \<notin> set (map row_id (table s))"
    using ok by (auto simp add: table_ok_def list_all_iff row_ok_def)
  show ?thesis
    using ok room new old ids fresh by (simp add: table_ok_def)
qed

lemma create_user_full:
  assumes ok: "table_ok s" and free: "\<not> write_lock s" and full: "2 ^ 63 - 1 \<le> sqlite_sequence s"
    and nm: "strip nm \<noteq> []" and em: "CHR ''@'' \<in> set em"
  shows "create_user s now (PStr nm) (PStr em) =
     (Inl full_error,
      s\<lparr>open_conns := Suc (open_conns s),
        trace := trace s @ [Connect, Execute (Insert_User (strip nm) (strip em))]\<rparr>)"
proof -
  have nm0: "nm \<noteq> []" using nm by auto
  have em0: "em \<noteq> []" using em by auto
  have big: "largest_rowid (get_connection s) = sqlite_sequence s"
    using largest_id_ok [OF ok] by (simp add: largest_rowid_def get_connection_def log_event_def)
  show ?thesis
    using nm nm0 em em0 free full big
    by (simp add: create_user_def create_try_def Let_def
          log_event_def get_connection_def insert_user_def handle_def)
qed

lemma table_ok_create_user:
  assumes ok: "table_ok s"
  shows "table_ok (snd (create_user s now nm em))"
proof (cases "\<exists>n e. nm = PStr n \<and> em = PStr e \<and> strip n \<noteq> [] \<and> CHR ''@'' \<in> set e")
  case False
  then have "snd (create_user s now nm em) = s"
    by (cases nm; cases em) (auto simp add: create_user_def)
  then show ?thesis using ok by simp
next
  case True
  then obtain n e where args: "nm = PStr n" "em = PStr e"
    and n: "strip n \<noteq> []" and e: "CHR ''@'' \<in> set e"
    by blast
  consider (locked) "write_lock s"
    | (full) "\<not> write_lock s" "2 ^ 63 - 1 \<le> sqlite_sequence s"
    | (dup) "\<not> write_lock s" "sqlite_sequence s < 2 ^ 63 - 1"
        "strip e \<in> set (map email (table s))"
    | (new) "\<not> write_lock s" "sqlite_sequence s < 2 ^ 63 - 1"
        "strip e \<notin> set (map email (table s))"
    by linarith
  then show ?thesis
  proof cases
    case locked
    from create_user_locked [OF locked n e] ok show ?thesis
      by (simp add: args table_ok_def)
  next
    case full
    from create_user_full [OF ok full n e] ok show ?thesis
      by (simp add: args table_ok_def)
  next
    case dup
    from create_user_duplicate [OF ok dup(1,2) n e dup(3)] ok show ?thesis
      by (simp add: args table_ok_def)
  next
    case new
    from create_user_succeeds [OF ok new(1,2) n e new(3) refl]
      table_ok_insert [OF ok new(2) n e new(3)]
    show ?thesis
      by (simp add: args)
  qed
qed

lemma table_ok_read_user: "table_ok s \<Longrightarrow> table_ok (snd (read_user s uid))"
  by (simp add: read_user_def handle_def select_by_id_def get_connection_def close_def
        log_event_def table_ok_def Let_def split: option.splits)

lemma table_ok_read_all_users: "table_ok s \<Longrightarrow> table_ok (snd (read_all_users s limit offset))"
  by (simp add: read_all_users_def handle_def select_page_def select_count_def
        get_connection_def close_def log_event_def table_ok_def Let_def)

lemma table_ok_delete_user:
  assumes ok: "table_ok s"
  shows "table_ok (snd (delete_user s uid))"
  using ok
  by (auto simp add: delete_user_def handle_def select_by_id_def get_connection_def close_def
        commit_def delete_row_def log_event_def table_ok_def distinct_map_filter list_all_iff
        Let_def
        split: option.splits)

lemma distinct_emails_updated:
  assumes "distinct (map row_id t)" and "distinct (map email t)"
    and "\<forall>x \<in> set t. row_id x \<noteq> i \<longrightarrow> email x \<noteq> e"
  shows "distinct (map email (map (\<lambda>r. if row_id r = i then set_fields a (Some e) r else r) t))"
  using assms
proof (induction t)
  case Nil
  then show ?case by simp
next
  case (Cons r t)
  show ?case
  proof (cases "row_id r = i")
    case True
    then have "\<forall>x \<in> set t. row_id x \<noteq> i"
      using Cons.prems(1) by (auto simp add: image_iff)
    then have same: "map (\<lambda>r. if row_id r = i then set_fields a (Some e) r else r) t = t"
      by (simp add: map_idI)
    have "e \<notin> set (map email t)"
      using Cons.prems(3) \<open>\<forall>x \<in> set t. row_id x \<noteq> i\<close> by auto
    then show ?thesis
      using True same Cons.prems(2) by simp
  next
    case False
    have "email r \<noteq> e"
      using Cons.prems(3) False by simp
    then have "email r \<notin> set (map email (map (\<lambda>r. if row_id r = i then set_fields a (Some e) r else r) t))"
      using Cons.prems(2) by (auto split: if_splits)
    then show ?thesis
      using False Cons by simp
  qed
qed

lemma ids_updated:
  "map row_id (map (\<lambda>r. if row_id r = i then set_fields a b r else r) t) = map row_id t"
  by (induction t) auto

lemma names_only_updated:
  "map email (map (\<lambda>r. if row_id r = i then set_fields a None r else r) t) = map email t"
  by (induction t) auto

lemma update_user_failure:
  "update_user s uid nm em = (Inl e, s') \<Longrightarrow>
     table s' = table s \<and> sqlite_sequence s' = sqlite_sequence s"
  by (auto simp add: update_user_def update_try_def find_updated
        log_event_def get_connection_def close_def commit_def select_by_id_def update_row_def
        handle_def Let_def
        split: if_splits option.splits sum.splits prod.splits)

lemma update_user_success_facts:
  assumes "update_user s uid nm em = (Inr rep, s')"
  shows "sqlite_sequence s' = sqlite_sequence s \<and>
      (truthy nm \<longrightarrow> strip (the_str nm) \<noteq> []) \<and>
      (truthy em \<longrightarrow> CHR ''@'' \<in> set (the_str em) \<and>
         (\<forall>x \<in> set (table s). row_id x \<noteq> the_int uid \<longrightarrow> email x \<noteq> strip (the_str em)))"
  using assms
  by (auto simp add: update_user_def update_try_def assignment_def
        log_event_def get_connection_def close_def commit_def select_by_id_def update_row_def
        handle_def Let_def
        split: if_splits option.splits sum.splits prod.splits dest: find_hit)

lemma table_ok_update_user:
  assumes ok: "table_ok s"
  shows "table_ok (snd (update_user s uid nm em))"
proof (cases "update_user s uid nm em")
  case (Pair res s')
  show ?thesis
  proof (cases res)
    case (Inl e)
    with Pair update_user_failure [of s uid nm em e s'] ok show ?thesis
      by (simp add: table_ok_def)
  next
    case (Inr rep)
    let ?i = "the_int uid"
    let ?f = "\<lambda>r. if row_id r = ?i then set_fields (assignment nm) (assignment em) r else r"
    from Pair Inr have run: "update_user s uid nm em = (Inr rep, s')" by simp
    from update_user_success [OF run] have tab: "table s' = map ?f (table s)"
      by blast
    from update_user_success_facts [OF run] have
      seq: "sqlite_sequence s' = sqlite_sequence s" and
      nm: "truthy nm \<longrightarrow> strip (the_str nm) \<noteq> []" and
      em: "truthy em \<longrightarrow> CHR ''@'' \<in> set (the_str em)" and
      free: "truthy em \<longrightarrow>
        (\<forall>x \<in> set (table s). row_id x \<noteq> ?i \<longrightarrow> email x \<noteq> strip (the_str em))"
      by blast+
    have ids: "distinct (map row_id (table s'))"
      using ok by (simp only: tab ids_updated table_ok_def)
    have rows: "list_all (row_ok (sqlite_sequence s')) (table s')"
      using ok nm em
      by (auto simp add: tab seq table_ok_def list_all_iff row_ok_def assignment_def
            strip_strip at_in_strip)
    have emails: "distinct (map email (table s'))"
    proof (cases "truthy em")
      case True
      then have given: "assignment em = Some (strip (the_str em))"
        by (simp add: assignment_def)
      have "distinct (map row_id (table s))" and "distinct (map email (table s))"
        using ok by (simp_all add: table_ok_def)
      moreover have "\<forall>x \<in> set (table s). row_id x \<noteq> ?i \<longrightarrow> email x \<noteq> strip (the_str em)"
        using free True by simp
      ultimately show ?thesis
        unfolding tab given by (rule distinct_emails_updated)
    next
      case False
      then have absent: "assignment em = None"
        by (simp add: assignment_def)
      show ?thesis
        unfolding tab absent names_only_updated using ok by (simp add: table_ok_def)
    qed
    from ids rows emails ok show ?thesis
      by (simp add: Pair seq table_ok_def)
  qed
qed

lemma reachable_table_ok: "reachable s \<Longrightarrow> table_ok s"
proof (induction rule: reachable.induct)
  case start
  show ?case by (rule table_ok_db)
next
  case (create s now nm em)
  then show ?case by (simp add: table_ok_create_user)
next
  case (read s uid)
  then show ?case by (simp add: table_ok_read_user)
next
  case (list s limit offset)
  then show ?case by (simp add: table_ok_read_all_users)
next
  case (update s uid nm em)
  then show ?case by (simp add: table_ok_update_user)
next
  case (delete s uid)
  then show ?case by (simp add: table_ok_delete_user)
qed

end
